theory Spec2Isabelle
  imports Main
begin

section \<open>JavaScript strings\<close>

text \<open>
  A JavaScript string is a sequence of UTF-16 code units. A code unit is modelled by its
  number, so that \<open>length\<close>, \<open>drop\<close> and \<open>take\<close> count what \<open>String.length\<close>,
  \<open>substring\<close> and \<open>startsWith\<close> count. \<open>js\<close> reads an ASCII literal.
\<close>

type_synonym jschar = nat
type_synonym jsstring = "jschar list"

definition js :: "string \<Rightarrow> jsstring" where
  "js s = map of_char s"

text \<open>ECMAScript LineTerminator: LF, CR, LS, PS. The regular expression atom \<open>.\<close>
  (no \<open>s\<close> flag) matches every code unit but these.\<close>

definition isLineTerminator :: "jschar \<Rightarrow> bool" where
  "isLineTerminator c = (c = 10 \<or> c = 13 \<or> c = 8232 \<or> c = 8233)"

text \<open>ECMAScript WhiteSpace together with LineTerminator: the code units that
  \<open>String.prototype.trim\<close> strips and that the regular expression class \<open>\s\<close> matches.\<close>

definition isWhiteSpace :: "jschar \<Rightarrow> bool" where
  "isWhiteSpace c =
     (c = 9 \<or> c = 11 \<or> c = 12 \<or> c = 32 \<or> c = 160 \<or> c = 5760
      \<or> (8192 \<le> c \<and> c \<le> 8202) \<or> c = 8239 \<or> c = 8287 \<or> c = 12288 \<or> c = 65279
      \<or> isLineTerminator c)"

definition trim :: "jsstring \<Rightarrow> jsstring" where
  "trim s = rev (dropWhile isWhiteSpace (rev (dropWhile isWhiteSpace s)))"

text \<open>\<open>s.split("\n")\<close>: the segments between line feeds; never the empty array.\<close>

fun split_newline :: "jsstring \<Rightarrow> jsstring list" where
  "split_newline [] = [[]]"
| "split_newline (c # cs) =
     (if c = 10 then [] # split_newline cs
      else (case split_newline cs of
              [] \<Rightarrow> [[c]]
            | l # ls \<Rightarrow> (c # l) # ls))"

definition startsWith :: "jsstring \<Rightarrow> jsstring \<Rightarrow> bool" where
  "startsWith s p = (take (length p) s = p)"

text \<open>\<open>s.includes(p)\<close>: \<open>p\<close> occurs in \<open>s\<close> at some position.\<close>

fun includes_str :: "jsstring \<Rightarrow> jsstring \<Rightarrow> bool" where
  "includes_str [] p = (p = [])"
| "includes_str (c # cs) p = (startsWith (c # cs) p \<or> includes_str cs p)"

text \<open>\<open>xs.join(sep)\<close> on an array of strings.\<close>

fun join :: "jsstring \<Rightarrow> jsstring list \<Rightarrow> jsstring" where
  "join sep [] = []"
| "join sep [x] = x"
| "join sep (x # y # ys) = x @ sep @ join sep (y # ys)"

text \<open>A thrown value, kept as the text its string conversion (\<open>`${error}`\<close>) gives.\<close>

datatype js_error = Thrown jsstring

fun error_text :: "js_error \<Rightarrow> jsstring" where
  "error_text (Thrown s) = s"

section \<open>The final-answer pattern of the loop\<close>

text \<open>
  \<open>response.match(/Final Answer:\s*(.+)/)\<close>, as the backtracking matcher runs it.
  After the literal, \<open>\s*\<close> first takes the longest run of white space; \<open>(.+)\<close> then needs
  one code unit that is no line terminator and takes the longest run of such units.
  When \<open>(.+)\<close> fails, \<open>\s*\<close> gives one unit back and \<open>(.+)\<close> is tried again.
  \<open>group_from k rest\<close> is the capture when \<open>\s*\<close> holds \<open>k\<close> units, and
  \<open>backtrack k rest\<close> tries \<open>k\<close>, then \<open>k - 1\<close>, down to \<open>0\<close>.
\<close>

definition group_from :: "nat \<Rightarrow> jsstring \<Rightarrow> jsstring option" where
  "group_from k rest =
     (case drop k rest of
        [] \<Rightarrow> None
      | c # cs \<Rightarrow>
          if isLineTerminator c then None
          else Some (takeWhile (\<lambda>d. \<not> isLineTerminator d) (c # cs)))"

fun backtrack :: "nat \<Rightarrow> jsstring \<Rightarrow> jsstring option" where
  "backtrack 0 rest = group_from 0 rest"
| "backtrack (Suc k) rest =
     (case group_from (Suc k) rest of
        Some g \<Rightarrow> Some g
      | None \<Rightarrow> backtrack k rest)"

definition match_after_marker :: "jsstring \<Rightarrow> jsstring option" where
  "match_after_marker rest = backtrack (length (takeWhile isWhiteSpace rest)) rest"

definition marker :: jsstring where
  "marker = js ''Final Answer:''"

text \<open>The match is tried at every start position from the left; the first success wins.
  The result is capture group 1.\<close>

fun match_final_answer :: "jsstring \<Rightarrow> jsstring option" where
  "match_final_answer [] = None"
| "match_final_answer (c # cs) =
     (if startsWith (c # cs) marker then
        (case match_after_marker (drop (length marker) (c # cs)) of
           Some g \<Rightarrow> Some g
         | None \<Rightarrow> match_final_answer cs)
      else match_final_answer cs)"

section \<open>The response parser\<close>

record AgentStep =
  thought :: jsstring
  action :: "jsstring option"
  actionInput :: "jsstring option"
  observation :: "jsstring option"

text \<open>The \<open>for (const line of lines)\<close> loop of \<open>parseAgentResponse\<close>, with its
  \<open>break\<close> on the first final-answer line.\<close>

fun parse_lines :: "jsstring list \<Rightarrow> AgentStep \<Rightarrow> AgentStep" where
  "parse_lines [] step = step"
| "parse_lines (line # lines) step =
     (if startsWith line (js ''Thought:'') then
        parse_lines lines (step\<lparr>thought := trim (drop 8 line)\<rparr>)
      else if startsWith line (js ''Action:'') then
        parse_lines lines (step\<lparr>action := Some (trim (drop 7 line))\<rparr>)
      else if startsWith line (js ''Action Input:'') then
        parse_lines lines (step\<lparr>actionInput := Some (trim (drop 13 line))\<rparr>)
      else if startsWith line (js ''Final Answer:'') then
        step\<lparr>observation := Some (trim (drop 13 line))\<rparr>
      else parse_lines lines step)"

definition response_lines :: "jsstring \<Rightarrow> jsstring list" where
  "response_lines response = filter (\<lambda>line. line \<noteq> []) (map trim (split_newline response))"

definition empty_step :: AgentStep where
  "empty_step = \<lparr>thought = [], action = None, actionInput = None, observation = None\<rparr>"

definition parseAgentResponse :: "jsstring \<Rightarrow> AgentStep" where
  "parseAgentResponse response = parse_lines (response_lines response) empty_step"

text \<open>The lines that the scan of \<open>parseAgentResponse\<close> reaches: those above the first line
  that begins with \<open>Final Answer:\<close>.\<close>

definition scanned_lines :: "jsstring \<Rightarrow> jsstring list" where
  "scanned_lines response =
     takeWhile (\<lambda>line. \<not> startsWith line (js ''Final Answer:'')) (response_lines response)"

text \<open>The value after the prefix \<open>p\<close> on the last of the lines that begin with \<open>p\<close>.\<close>

definition last_with :: "jsstring \<Rightarrow> jsstring list \<Rightarrow> jsstring option" where
  "last_with p lines =
     (case filter (\<lambda>line. startsWith line p) lines of
        [] \<Rightarrow> None
      | l # ls \<Rightarrow> Some (trim (drop (length p) (last (l # ls)))))"

section \<open>The two extractions of a final answer\<close>

text \<open>What the loop takes as the final answer of a response: the text it assigns to
  \<open>finalAnswer\<close> before the \<open>break\<close>.\<close>

definition loop_final_answer :: "jsstring \<Rightarrow> jsstring option" where
  "loop_final_answer response =
     (if includes_str response marker then map_option trim (match_final_answer response) else None)"

text \<open>What the parser takes as the final answer: the \<open>observation\<close> of the step, which only a
  \<open>Final Answer:\<close> line sets.\<close>

definition parser_final_answer :: "jsstring \<Rightarrow> jsstring option" where
  "parser_final_answer response = observation (parseAgentResponse response)"

text \<open>\<open>s.indexOf(p)\<close>: the position of the first occurrence, \<open>None\<close> for \<open>-1\<close>.\<close>

fun indexOf :: "jsstring \<Rightarrow> jsstring \<Rightarrow> nat option" where
  "indexOf [] p = (if p = [] then Some 0 else None)"
| "indexOf (c # cs) p =
     (if startsWith (c # cs) p then Some 0 else map_option Suc (indexOf cs p))"

section \<open>The tools\<close>

text \<open>
  Everything outside the process (the completion service, the clock) is a world state
  \<open>'w\<close> that every call may read and change. A call returns \<open>Inl\<close> for a thrown
  value (a rejected promise) and \<open>Inr\<close> for its result.
\<close>

record 'w Tool =
  name :: jsstring
  description :: jsstring
  func :: "jsstring \<Rightarrow> 'w \<Rightarrow> (js_error + jsstring) \<times> 'w"

text \<open>\<open>getCurrentTime\<close>: \<open>now\<close> reads \<open>new Date().toLocaleString()\<close> off the world.\<close>

definition getCurrentTime :: "('w \<Rightarrow> jsstring) \<Rightarrow> 'w \<Rightarrow> (js_error + jsstring) \<times> 'w" where
  "getCurrentTime now w = (Inr (now w), w)"

definition allowedChars :: "jschar set" where
  "allowedChars = set (js ''0123456789+-*/.() '')"

text \<open>
  \<open>simpleCalculator\<close>. The JavaScript engine is no code of the repository: \<open>evaluate e\<close>
  stands for \<open>String(Function(`"use strict"; return (${e})`)())\<close> and is \<open>Inl\<close> when the
  engine throws. \<open>calculator_body\<close> is the \<open>try\<close> block, \<open>simpleCalculator\<close> adds the
  \<open>catch\<close>.
\<close>

definition calculator_body :: "(jsstring \<Rightarrow> js_error + jsstring) \<Rightarrow> jsstring \<Rightarrow> js_error + jsstring" where
  "calculator_body evaluate expression =
     (let cleanExpression = trim expression in
      if list_all (\<lambda>c. c \<in> allowedChars) cleanExpression then evaluate cleanExpression
      else Inr (js ''Error: Invalid characters in expression''))"

definition simpleCalculator :: "(jsstring \<Rightarrow> js_error + jsstring) \<Rightarrow> jsstring \<Rightarrow> js_error + jsstring" where
  "simpleCalculator evaluate expression =
     (case calculator_body evaluate expression of
        Inl error \<Rightarrow> Inr (js ''Error: Could not evaluate expression'')
      | Inr result \<Rightarrow> Inr result)"

text \<open>
  \<open>getWeatherInfo(city = "New York")\<close>: the default value of a parameter is taken when the
  argument is \<open>undefined\<close> (here \<open>None\<close>), and only then. The two code units after \<open>72\<close>
  are U+00AC and U+221E, as the source file has them.
\<close>

definition getWeatherInfo :: "jsstring option \<Rightarrow> js_error + jsstring" where
  "getWeatherInfo arg =
     (let city = (case arg of None \<Rightarrow> js ''New York'' | Some c \<Rightarrow> c)
      in Inr (js ''The weather in '' @ city @ js '' is sunny and 72'' @ [172, 8734]
              @ js ''F (this is mock data)''))"

text \<open>The module's \<open>tools\<close> array. A tool is called as \<open>tool.func(input)\<close>, with one
  argument that is a string.\<close>

definition default_tools ::
  "(jsstring \<Rightarrow> js_error + jsstring) \<Rightarrow> ('w \<Rightarrow> jsstring) \<Rightarrow> 'w Tool list" where
  "default_tools evaluate now =
     [\<lparr>name = js ''get_time'',
       description = js ''Get the current date and time'',
       func = (\<lambda>input w. getCurrentTime now w)\<rparr>,
      \<lparr>name = js ''calculator'',
       description = js ''Calculate simple math expressions like '' @ [39] @ js ''2 + 2'' @ [39]
                     @ js '' or '' @ [39] @ js ''10 * 5'' @ [39],
       func = (\<lambda>input w. (simpleCalculator evaluate input, w))\<rparr>,
      \<lparr>name = js ''weather'',
       description = js ''Get weather information for a city'',
       func = (\<lambda>input w. (getWeatherInfo (Some input), w))\<rparr>]"

section \<open>The agent\<close>

text \<open>\<open>ReactAgent\<close>. \<open>llm\<close> is \<open>OllamaClient.generate\<close>; \<open>maxIterations\<close> is a count, a
  natural number (\<open>main\<close> passes 3). The \<open>verbose\<close> flag only switches console output and
  is left out.\<close>

record 'w ReactAgent =
  llm :: "jsstring \<Rightarrow> 'w \<Rightarrow> (js_error + jsstring) \<times> 'w"
  tools :: "'w Tool list"
  maxIterations :: nat

definition createPrompt :: "'w ReactAgent \<Rightarrow> jsstring \<Rightarrow> jsstring \<Rightarrow> jsstring" where
  "createPrompt agent input pad =
     (let toolDescriptions =
            join (js ''\<newline>'') (map (\<lambda>tool. name tool @ js '': '' @ description tool) (tools agent));
          toolNames = join (js '', '') (map name (tools agent))
      in js ''You are a helpful assistant with access to tools.\<newline>\<newline>''
         @ js ''You have access to the following tools:\<newline>''
         @ toolDescriptions @ js ''\<newline>\<newline>''
         @ js ''Use the following format:\<newline>''
         @ js ''Question: the input question you must answer\<newline>''
         @ js ''Thought: think about what you need to do\<newline>''
         @ js ''Action: the action to take, should be one of ['' @ toolNames @ js '']\<newline>''
         @ js ''Action Input: the input to the action\<newline>''
         @ js ''Observation: the result of the action\<newline>''
         @ js ''... (this Thought/Action/Action Input/Observation can repeat N times)\<newline>''
         @ js ''Thought: I now know the final answer\<newline>''
         @ js ''Final Answer: the final answer to the original input question\<newline>\<newline>''
         @ js ''Begin!\<newline>\<newline>''
         @ js ''Question: '' @ input @ js ''\<newline>''
         @ js ''Thought: '' @ pad)"

definition executeTool ::
  "'w ReactAgent \<Rightarrow> jsstring \<Rightarrow> jsstring \<Rightarrow> 'w \<Rightarrow> (js_error + jsstring) \<times> 'w" where
  "executeTool agent toolName input w =
     (case find (\<lambda>t. name t = toolName) (tools agent) of
        None \<Rightarrow>
          (Inr (js ''Error: Tool '' @ [39] @ toolName @ [39] @ js '' not found. Available tools: ''
                @ join (js '', '') (map name (tools agent))), w)
      | Some tool \<Rightarrow>
          (case func tool input w of
             (Inr result, w') \<Rightarrow> (Inr result, w')
           | (Inl error, w') \<Rightarrow>
               (Inr (js ''Error executing tool '' @ [39] @ toolName @ [39] @ js '': ''
                     @ error_text error), w')))"

text \<open>
  The variables of \<open>invoke\<close>. \<open>prompts\<close> and \<open>dispatched\<close> are not in the source: they
  record the prompt of every \<open>llm.generate\<close> call that returned and the arguments of every
  \<open>executeTool\<close> call, in order, so that calls can be counted.
\<close>

record invoke_state =
  scratchpad :: jsstring
  finalAnswer :: jsstring
  prompts :: "jsstring list"
  dispatched :: "(jsstring \<times> jsstring) list"

datatype loop_exit = Continue invoke_state | Break invoke_state

text \<open>The \<open>else\<close> branch: only the thought goes to the scratchpad.\<close>

definition thought_only :: "AgentStep \<Rightarrow> invoke_state \<Rightarrow> invoke_state" where
  "thought_only step st = st\<lparr>scratchpad := scratchpad st @ thought step @ js ''\<newline>''\<rparr>"

text \<open>The text that the branch of a tool call adds to the scratchpad.\<close>

definition tool_block :: "AgentStep \<Rightarrow> jsstring \<Rightarrow> jsstring \<Rightarrow> jsstring \<Rightarrow> jsstring" where
  "tool_block step act inp obs =
     (if thought step \<noteq> [] then js ''I'' else js ''I'') @ js '' need to use the '' @ act
       @ js '' tool.\<newline>''
     @ js ''Action: '' @ act @ js ''\<newline>''
     @ js ''Action Input: '' @ inp @ js ''\<newline>''
     @ js ''Observation: '' @ obs @ js ''\<newline>''
     @ js ''Thought: ''"

text \<open>\<open>step.action && step.actionInput !== undefined\<close>, then \<open>executeTool\<close> and the
  scratchpad; a string is truthy when it is not empty.\<close>

definition act_or_think ::
  "'w ReactAgent \<Rightarrow> AgentStep \<Rightarrow> invoke_state \<Rightarrow> 'w \<Rightarrow> (js_error + loop_exit) \<times> 'w" where
  "act_or_think agent step st w =
     (case action step of
        None \<Rightarrow> (Inr (Continue (thought_only step st)), w)
      | Some act \<Rightarrow>
          if act = [] then (Inr (Continue (thought_only step st)), w)
          else
            (case actionInput step of
               None \<Rightarrow> (Inr (Continue (thought_only step st)), w)
             | Some inp \<Rightarrow>
                 (case executeTool agent act inp w of
                    (Inl error, w') \<Rightarrow> (Inl error, w')
                  | (Inr obs, w') \<Rightarrow>
                      (Inr (Continue
                         (st\<lparr>scratchpad := scratchpad st @ tool_block step act inp obs,
                             dispatched := dispatched st @ [(act, inp)]\<rparr>)), w'))))"

text \<open>One pass through the body of the \<open>for\<close> loop.\<close>

definition iteration ::
  "'w ReactAgent \<Rightarrow> jsstring \<Rightarrow> invoke_state \<Rightarrow> 'w \<Rightarrow> (js_error + loop_exit) \<times> 'w" where
  "iteration agent input st w =
     (let prompt = createPrompt agent input (scratchpad st) in
      case llm agent prompt w of
        (Inl error, w') \<Rightarrow> (Inl error, w')
      | (Inr response, w') \<Rightarrow>
          (let st' = st\<lparr>prompts := prompts st @ [prompt]\<rparr>;
               finalAnswerMatch =
                 (if includes_str response marker then match_final_answer response else None)
           in case finalAnswerMatch of
                Some g \<Rightarrow> (Inr (Break (st'\<lparr>finalAnswer := trim g\<rparr>)), w')
              | None \<Rightarrow> act_or_think agent (parseAgentResponse response) st' w'))"

function invoke_loop ::
  "'w ReactAgent \<Rightarrow> jsstring \<Rightarrow> nat \<Rightarrow> invoke_state \<Rightarrow> 'w \<Rightarrow> (js_error + invoke_state) \<times> 'w" where
  "invoke_loop agent input i st w =
     (if i < maxIterations agent then
        (case iteration agent input st w of
           (Inl error, w') \<Rightarrow> (Inl error, w')
         | (Inr (Break st'), w') \<Rightarrow> (Inr st', w')
         | (Inr (Continue st'), w') \<Rightarrow> invoke_loop agent input (Suc i) st' w')
      else (Inr st, w))"
  by pat_completeness auto
termination
  by (relation "measure (\<lambda>(agent, input, i, st, w). maxIterations agent - i)") auto

definition initial_state :: invoke_state where
  "initial_state = \<lparr>scratchpad = [], finalAnswer = [], prompts = [], dispatched = []\<rparr>"

definition exhausted_message :: jsstring where
  "exhausted_message = js ''I couldn'' @ [39] @ js ''t complete the task within the maximum iterations.''"

text \<open>The code after the loop: the fallback for an empty \<open>finalAnswer\<close>, and the object
  \<open>{ output: finalAnswer }\<close> that \<open>invoke\<close> returns, here with the last state of its
  variables.\<close>

record invoke_result =
  output_text :: jsstring
  final :: invoke_state

definition finish :: "invoke_state \<Rightarrow> invoke_result" where
  "finish st =
     \<lparr>output_text = (if finalAnswer st = [] then exhausted_message else finalAnswer st),
      final = st\<rparr>"

definition invoke :: "'w ReactAgent \<Rightarrow> jsstring \<Rightarrow> 'w \<Rightarrow> (js_error + invoke_result) \<times> 'w" where
  "invoke agent input w =
     (case invoke_loop agent input 0 initial_state w of
        (Inl error, w') \<Rightarrow> (Inl error, w')
      | (Inr st, w') \<Rightarrow> (Inr (finish st), w'))"

section \<open>Sample collaborators\<close>

text \<open>
  Values of the JavaScript engine at a few expressions: what
  \<open>String(Function(`"use strict"; return (${e})`)())\<close> gives for the listed \<open>e\<close>. Any
  other input is answered with a thrown error, as the engine answers \<open>(\<close>, which is no
  expression; the sample is used at \<open>(\<close> and at the listed expressions only.
\<close>

definition engine_sample :: "jsstring \<Rightarrow> js_error + jsstring" where
  "engine_sample e =
     (if e = js ''2 + 2'' then Inr (js ''4'')
      else if e = js ''2+2'' then Inr (js ''4'')
      else if e = js ''15 * 23'' then Inr (js ''345'')
      else if e = js ''1/0'' then Inr (js ''Infinity'')
      else if e = js ''0/0'' then Inr (js ''NaN'')
      else Inl (Thrown (js ''SyntaxError'')))"

text \<open>An agent whose completion client answers every prompt with the same text, over the
  module's three tools.\<close>

definition constant_agent :: "jsstring \<Rightarrow> nat \<Rightarrow> unit ReactAgent" where
  "constant_agent r n =
     \<lparr>llm = (\<lambda>prompt w. (Inr r, w)),
      tools = default_tools engine_sample (\<lambda>w. js ''8/10/2025, 3:42:15 PM''),
      maxIterations = n\<rparr>"

text \<open>An agent whose completion client reads its answers off a script: the world is the
  list of the answers to come, and the client throws when the script is used up.\<close>

definition scripted_agent :: "nat \<Rightarrow> jsstring list ReactAgent" where
  "scripted_agent n =
     \<lparr>llm = (\<lambda>prompt w. case w of
                [] \<Rightarrow> (Inl (Thrown (js ''Error: HTTP error! status: 500'')), [])
              | r # rs \<Rightarrow> (Inr r, rs)),
      tools = default_tools engine_sample (\<lambda>w. js ''8/10/2025, 3:42:15 PM''),
      maxIterations = n\<rparr>"

text \<open>An agent whose only tool throws on every call.\<close>

definition faulty_agent :: "unit ReactAgent" where
  "faulty_agent =
     \<lparr>llm = (\<lambda>prompt w. (Inr (js ''Action: boom\<newline>Action Input: x''), w)),
      tools = [\<lparr>name = js ''boom'', description = js ''Always fails'',
                func = (\<lambda>input w. (Inl (Thrown (js ''Error: kaput'')), w))\<rparr>],
      maxIterations = 2\<rparr>"

section \<open>Basic facts\<close>

declare invoke_loop.simps [simp del]

lemma js_append: "js (a @ b) = js a @ js b"
  by (simp add: js_def)

lemma match_final_answer_includes:
  "match_final_answer r = Some g \<Longrightarrow> includes_str r marker"
  by (induction r) (auto split: if_splits option.splits)

lemma executeTool_returns:
  "\<exists>obs w'. executeTool agent toolName input w = (Inr obs, w')"
  by (auto simp: executeTool_def split: option.splits prod.splits sum.splits)

lemma act_or_think_continues:
  "\<exists>st' w'. act_or_think agent step st w = (Inr (Continue st'), w')
      \<and> prompts st' = prompts st \<and> finalAnswer st' = finalAnswer st"
proof (cases "action step")
  case None
  then show ?thesis by (simp add: act_or_think_def thought_only_def)
next
  case (Some act)
  show ?thesis
  proof (cases "act = [] \<or> actionInput step = None")
    case True
    with Some show ?thesis by (auto simp: act_or_think_def thought_only_def)
  next
    case False
    then obtain inp where inp: "actionInput step = Some inp" and act: "act \<noteq> []" by auto
    obtain obs w' where "executeTool agent act inp w = (Inr obs, w')"
      using executeTool_returns [of agent act inp w] by auto
    with Some inp act show ?thesis by (simp add: act_or_think_def)
  qed
qed

lemma iteration_throw:
  "llm agent (createPrompt agent input (scratchpad st)) w = (Inl e, w') \<Longrightarrow>
   iteration agent input st w = (Inl e, w')"
  by (simp add: iteration_def)

lemma iteration_final:
  "llm agent (createPrompt agent input (scratchpad st)) w = (Inr r, w') \<Longrightarrow>
   match_final_answer r = Some g \<Longrightarrow>
   iteration agent input st w =
     (Inr (Break (st\<lparr>prompts := prompts st @ [createPrompt agent input (scratchpad st)],
                      finalAnswer := trim g\<rparr>)), w')"
  by (simp add: iteration_def match_final_answer_includes)

lemma iteration_no_final:
  "llm agent (createPrompt agent input (scratchpad st)) w = (Inr r, w') \<Longrightarrow>
   \<not> includes_str r marker \<or> match_final_answer r = None \<Longrightarrow>
   iteration agent input st w =
     act_or_think agent (parseAgentResponse r)
       (st\<lparr>prompts := prompts st @ [createPrompt agent input (scratchpad st)]\<rparr>) w'"
  by (auto simp: iteration_def)


lemmas string_eval = js_def marker_def startsWith_def match_after_marker_def group_from_def
  isWhiteSpace_def isLineTerminator_def trim_def

lemma invoke_loop_exits:
  "i < maxIterations agent \<Longrightarrow> iteration agent input st w = (Inr (Break st'), w') \<Longrightarrow>
   invoke_loop agent input i st w = (Inr st', w')"
  by (subst invoke_loop.simps) simp

lemma invoke_loop_continues:
  "i < maxIterations agent \<Longrightarrow> iteration agent input st w = (Inr (Continue st'), w') \<Longrightarrow>
   invoke_loop agent input i st w = invoke_loop agent input (Suc i) st' w'"
  by (subst invoke_loop.simps) simp

lemma invoke_loop_done:
  "\<not> i < maxIterations agent \<Longrightarrow> invoke_loop agent input i st w = (Inr st, w)"
  by (subst invoke_loop.simps) simp

lemma invoke_loop_returns:
  assumes up: "\<And>p w. \<exists>r w'. llm agent p w = (Inr r, w')"
  shows "n = maxIterations agent - i \<Longrightarrow> \<exists>st' w'. invoke_loop agent input i st w = (Inr st', w')"
proof (induction n arbitrary: i st w)
  case 0
  then show ?case by (simp add: invoke_loop_done)
next
  case (Suc n)
  then have lt: "i < maxIterations agent" and n: "n = maxIterations agent - Suc i" by auto
  obtain r w1 where r: "llm agent (createPrompt agent input (scratchpad st)) w = (Inr r, w1)"
    using up by blast
  show ?case
  proof (cases "match_final_answer r")
    case None
    obtain st1 w2 where "iteration agent input st w = (Inr (Continue st1), w2)"
      using act_or_think_continues [of agent "parseAgentResponse r"
          "st\<lparr>prompts := prompts st @ [createPrompt agent input (scratchpad st)]\<rparr>" w1]
        iteration_no_final [OF r] None by auto
    then show ?thesis
      using Suc.IH [OF n, of st1 w2] invoke_loop_continues [OF lt] by simp
  next
    case (Some g)
    then show ?thesis
      using invoke_loop_exits [OF lt iteration_final [OF r Some]] by simp
  qed
qed

lemma includes_str_append: "includes_str (a @ b @ c) b"
proof (induction a)
  case Nil
  have sw: "startsWith (b @ c) b" by (simp add: startsWith_def)
  show ?case
  proof (cases "b @ c")
    case Nil
    then show ?thesis by simp
  next
    case (Cons x l)
    with sw show ?thesis by simp
  qed
next
  case (Cons x a)
  then show ?case by simp
qed

lemma last_with_Nil: "last_with p [] = None"
  by (simp add: last_with_def)

lemma last_with_Cons:
  "last_with p (l # ls) =
     (case last_with p ls of
        Some v \<Rightarrow> Some v
      | None \<Rightarrow> if startsWith l p then Some (trim (drop (length p) l)) else None)"
  by (cases "filter (\<lambda>line. startsWith line p) ls") (simp_all add: last_with_def)

lemma prefix_clash:
  assumes "startsWith l p" and "startsWith l q"
  shows "take (min (length p) (length q)) p = take (min (length p) (length q)) q"
proof -
  have "take (min (length p) (length q)) (take (length p) l)
      = take (min (length p) (length q)) (take (length q) l)"
    by (simp add: min.commute min.left_commute)
  with assms show ?thesis by (simp add: startsWith_def)
qed

lemma Thought_line:
  "startsWith l (js ''Thought:'') \<Longrightarrow>
   \<not> startsWith l (js ''Action:'') \<and> \<not> startsWith l (js ''Action Input:'')
   \<and> \<not> startsWith l (js ''Final Answer:'')"
  using prefix_clash [of l "js ''Thought:''" "js ''Action:''"]
    prefix_clash [of l "js ''Thought:''" "js ''Action Input:''"]
    prefix_clash [of l "js ''Thought:''" "js ''Final Answer:''"]
  by (auto simp: js_def)

lemma Action_line:
  "startsWith l (js ''Action:'') \<Longrightarrow>
   \<not> startsWith l (js ''Action Input:'') \<and> \<not> startsWith l (js ''Final Answer:'')"
  using prefix_clash [of l "js ''Action:''" "js ''Action Input:''"]
    prefix_clash [of l "js ''Action:''" "js ''Final Answer:''"]
  by (auto simp: js_def)

lemma Action_Input_line:
  "startsWith l (js ''Action Input:'') \<Longrightarrow> \<not> startsWith l (js ''Final Answer:'')"
  using prefix_clash [of l "js ''Action Input:''" "js ''Final Answer:''"]
  by (auto simp: js_def)

lemma prefix_lengths:
  "length (js ''Thought:'') = 8" "length (js ''Action:'') = 7" "length (js ''Action Input:'') = 13"
  "length (js ''Final Answer:'') = 13"
  by (simp_all add: js_def)

lemma parse_lines_last:
  "thought (parse_lines ls step) =
     (case last_with (js ''Thought:'') (takeWhile (\<lambda>line. \<not> startsWith line (js ''Final Answer:'')) ls) of
        None \<Rightarrow> thought step | Some v \<Rightarrow> v)
   \<and> action (parse_lines ls step) =
     (case last_with (js ''Action:'') (takeWhile (\<lambda>line. \<not> startsWith line (js ''Final Answer:'')) ls) of
        None \<Rightarrow> action step | Some v \<Rightarrow> Some v)
   \<and> actionInput (parse_lines ls step) =
     (case last_with (js ''Action Input:'') (takeWhile (\<lambda>line. \<not> startsWith line (js ''Final Answer:'')) ls) of
        None \<Rightarrow> actionInput step | Some v \<Rightarrow> Some v)"
proof (induction ls arbitrary: step)
  case Nil
  then show ?case by (simp add: last_with_Nil)
next
  case (Cons l ls)
  consider (T) "startsWith l (js ''Thought:'')"
    | (A) "\<not> startsWith l (js ''Thought:'')" "startsWith l (js ''Action:'')"
    | (I) "\<not> startsWith l (js ''Thought:'')" "\<not> startsWith l (js ''Action:'')"
          "startsWith l (js ''Action Input:'')"
    | (F) "\<not> startsWith l (js ''Thought:'')" "\<not> startsWith l (js ''Action:'')"
          "\<not> startsWith l (js ''Action Input:'')" "startsWith l (js ''Final Answer:'')"
    | (N) "\<not> startsWith l (js ''Thought:'')" "\<not> startsWith l (js ''Action:'')"
          "\<not> startsWith l (js ''Action Input:'')" "\<not> startsWith l (js ''Final Answer:'')"
    by blast
  then show ?case
  proof cases
    case T
    then show ?thesis
      using Thought_line [OF T] Cons.IH [of "step\<lparr>thought := trim (drop 8 l)\<rparr>"]
      by (simp add: last_with_Cons prefix_lengths split: option.splits)
  next
    case A
    then show ?thesis
      using Action_line [OF A(2)] Cons.IH [of "step\<lparr>action := Some (trim (drop 7 l))\<rparr>"]
      by (simp add: last_with_Cons prefix_lengths split: option.splits)
  next
    case I
    then show ?thesis
      using Action_Input_line [OF I(3)] Cons.IH [of "step\<lparr>actionInput := Some (trim (drop 13 l))\<rparr>"]
      by (simp add: last_with_Cons prefix_lengths split: option.splits)
  next
    case F
    then show ?thesis by (simp add: last_with_Nil)
  next
    case N
    then show ?thesis
      using Cons.IH [of step]
      by (simp add: last_with_Cons split: option.splits)
  qed
qed

lemma set_trim: "set (trim s) \<subseteq> set s"
proof -
  have "set (trim s) = set (dropWhile isWhiteSpace (rev (dropWhile isWhiteSpace s)))"
    by (simp add: trim_def)
  also have "\<dots> \<subseteq> set (rev (dropWhile isWhiteSpace s))"
    by (rule set_dropWhileD [THEN subsetI])
  also have "\<dots> \<subseteq> set s"
    using set_dropWhileD [of _ isWhiteSpace s] by auto
  finally show ?thesis .
qed

lemma calculator_cases:
  "simpleCalculator evaluate expression =
     (if set (trim expression) \<subseteq> allowedChars then
        (case evaluate (trim expression) of
           Inl e \<Rightarrow> Inr (js ''Error: Could not evaluate expression'')
         | Inr result \<Rightarrow> Inr result)
      else Inr (js ''Error: Invalid characters in expression''))"
  by (cases "evaluate (trim expression)")
    (simp_all add: simpleCalculator_def calculator_body_def Let_def list_all_iff subset_eq)

lemma trim_literals:
  "trim (js ''2 + 2'') = js ''2 + 2''" "trim (js ''15 * 23'') = js ''15 * 23''"
  "trim (js ''alert(1)'') = js ''alert(1)''" "trim (js ''1/0'') = js ''1/0''"
  "trim (js ''0/0'') = js ''0/0''" "trim (js ''('') = js ''(''"
  by (simp_all add: string_eval)

lemma allowed_literals:
  "set (js ''2 + 2'') \<subseteq> allowedChars" "set (js ''15 * 23'') \<subseteq> allowedChars"
  "\<not> set (js ''alert(1)'') \<subseteq> allowedChars" "set (js ''1/0'') \<subseteq> allowedChars"
  "set (js ''0/0'') \<subseteq> allowedChars" "set (js ''('') \<subseteq> allowedChars"
  by (simp_all add: allowedChars_def js_def)

lemma indexOf_first:
  "indexOf s p = Some n \<Longrightarrow> i < n \<Longrightarrow> \<not> startsWith (drop i s) p"
proof (induction s arbitrary: n i)
  case Nil
  then show ?case by (simp split: if_splits)
next
  case (Cons c cs)
  show ?case
  proof (cases "startsWith (c # cs) p")
    case True
    with Cons.prems show ?thesis by simp
  next
    case False
    with Cons.prems obtain m where m: "indexOf cs p = Some m" "n = Suc m" by auto
    show ?thesis
    proof (cases i)
      case 0
      with False show ?thesis by simp
    next
      case (Suc j)
      with Cons.IH [OF m(1), of j] Cons.prems(2) m(2) show ?thesis by simp
    qed
  qed
qed

lemma indexOf_match:
  "indexOf s marker = Some n \<Longrightarrow> match_final_answer s = match_final_answer (drop n s)"
proof (induction s arbitrary: n)
  case Nil
  then show ?case by simp
next
  case (Cons c cs)
  show ?case
  proof (cases "startsWith (c # cs) marker")
    case True
    with Cons.prems show ?thesis by simp
  next
    case False
    with Cons.prems obtain m where m: "indexOf cs marker = Some m" "n = Suc m" by auto
    with False Cons.IH [OF m(1)] show ?thesis by simp
  qed
qed

lemma backtrack_hit: "group_from k rest = Some g \<Longrightarrow> backtrack k rest = Some g"
  by (cases k) simp_all

lemma takeWhile_line_end:
  "post = [] \<or> hd post = 10 \<Longrightarrow>
   takeWhile (\<lambda>d. \<not> isLineTerminator d) (trail @ post) = takeWhile (\<lambda>d. \<not> isLineTerminator d) trail"
  by (induction trail) (auto simp: isLineTerminator_def takeWhile_eq_Nil_iff)

lemma dropWhile_all: "\<forall>c\<in>set a. P c \<Longrightarrow> dropWhile P (a @ s) = dropWhile P s"
  by (induction a) auto

lemma trim_pad:
  assumes "\<forall>c\<in>set a. isWhiteSpace c" and "\<forall>c\<in>set b. isWhiteSpace c"
  shows "trim (a @ s @ b) = trim s"
proof -
  have 1: "dropWhile isWhiteSpace (a @ s @ b) = dropWhile isWhiteSpace (s @ b)"
    using assms(1) by (simp add: dropWhile_all)
  show ?thesis
  proof (cases "\<forall>c\<in>set s. isWhiteSpace c")
    case True
    then have "dropWhile isWhiteSpace (s @ b) = []" "dropWhile isWhiteSpace s = []"
      using assms(2) by auto
    with 1 show ?thesis by (simp only: trim_def)
  next
    case False
    then have "dropWhile isWhiteSpace (s @ b) = dropWhile isWhiteSpace s @ b"
      by (metis dropWhile_append1)
    with 1 have "trim (a @ s @ b)
        = rev (dropWhile isWhiteSpace (rev b @ rev (dropWhile isWhiteSpace s)))"
      by (simp add: trim_def)
    also have "\<dots> = rev (dropWhile isWhiteSpace (rev (dropWhile isWhiteSpace s)))"
      using assms(2) dropWhile_all [of "rev b" isWhiteSpace] by simp
    finally show ?thesis by (simp add: trim_def)
  qed
qed

lemma trim_core:
  assumes "s \<noteq> []" and "\<not> isWhiteSpace (hd s)" and "\<not> isWhiteSpace (last s)"
  shows "trim s = s"
proof -
  have "dropWhile isWhiteSpace s = s"
    using assms(1,2) by (cases s) simp_all
  moreover have "dropWhile isWhiteSpace (rev s) = rev s"
    using assms(1,3) by (cases "rev s") (simp_all add: hd_rev [symmetric])
  ultimately show ?thesis by (simp add: trim_def)
qed

lemma split_newline_nonempty: "split_newline s \<noteq> []"
  by (induction s) (auto split: list.splits)

lemma split_newline_append:
  "split_newline (a @ 10 # b) = split_newline a @ split_newline b"
proof (induction a)
  case Nil
  then show ?case by simp
next
  case (Cons c a)
  obtain l ls where "split_newline a = l # ls"
    using split_newline_nonempty [of a] by (cases "split_newline a") auto
  with Cons show ?case by simp
qed

lemma split_newline_line: "10 \<notin> set s \<Longrightarrow> split_newline s = [s]"
  by (induction s) auto

lemma split_newline_hd: "\<exists>b. s = hd (split_newline s) @ b"
proof (induction s)
  case Nil
  then show ?case by simp
next
  case (Cons c cs)
  obtain h t where ht: "split_newline cs = h # t"
    using split_newline_nonempty [of cs] by (cases "split_newline cs") auto
  with Cons show ?case by auto
qed

lemma split_newline_infix: "l \<in> set (split_newline s) \<Longrightarrow> \<exists>a b. s = a @ l @ b"
proof (induction s arbitrary: l)
  case Nil
  then show ?case by simp
next
  case (Cons c cs)
  obtain h t where ht: "split_newline cs = h # t"
    using split_newline_nonempty [of cs] by (cases "split_newline cs") auto
  show ?case
  proof (cases "c = 10")
    case True
    with Cons.prems have "l = [] \<or> l \<in> set (split_newline cs)" by auto
    then show ?thesis
    proof
      assume "l = []"
      then have "c # cs = [] @ l @ (c # cs)" by simp
      then show ?thesis by blast
    next
      assume "l \<in> set (split_newline cs)"
      then obtain a b where "cs = a @ l @ b" using Cons.IH by blast
      then have "c # cs = (c # a) @ l @ b" by simp
      then show ?thesis by blast
    qed
  next
    case False
    with Cons.prems ht have "l = c # h \<or> l \<in> set t" by auto
    then show ?thesis
    proof
      assume l: "l = c # h"
      obtain b where "cs = h @ b" using split_newline_hd [of cs] ht by auto
      with l have "c # cs = [] @ l @ b" by simp
      then show ?thesis by blast
    next
      assume "l \<in> set t"
      then obtain a b where "cs = a @ l @ b" using Cons.IH [of l] ht by auto
      then have "c # cs = (c # a) @ l @ b" by simp
      then show ?thesis by blast
    qed
  qed
qed

lemma trim_infix: "\<exists>a b. s = a @ trim s @ b"
proof -
  let ?d = "dropWhile isWhiteSpace s"
  have "s = takeWhile isWhiteSpace s @ ?d" by simp
  moreover have "rev ?d = takeWhile isWhiteSpace (rev ?d) @ dropWhile isWhiteSpace (rev ?d)" by simp
  then have "?d = trim s @ rev (takeWhile isWhiteSpace (rev ?d))"
    by (metis rev_append rev_rev_ident trim_def)
  ultimately have "s = takeWhile isWhiteSpace s @ trim s @ rev (takeWhile isWhiteSpace (rev ?d))"
    by simp
  then show ?thesis by blast
qed

lemma startsWith_append: "startsWith s p \<Longrightarrow> \<exists>c. s = p @ c"
  by (metis append_take_drop_id startsWith_def)

lemma startsWith_drop_append: "startsWith (drop (length a) (a @ p @ c)) p"
  by (simp add: startsWith_def)

text \<open>A trimmed line of the text that begins with the marker puts the marker into the text.\<close>

lemma marker_line_position:
  assumes "l \<in> set (split_newline s)" and "startsWith (trim l) p" and "p \<noteq> []"
  shows "\<exists>i<length s. startsWith (drop i (s @ t)) p"
proof -
  obtain a b where s: "s = a @ l @ b" using split_newline_infix [OF assms(1)] by blast
  obtain a' b' where l: "l = a' @ trim l @ b'" using trim_infix [of l] by blast
  obtain c where c: "trim l = p @ c" using startsWith_append [OF assms(2)] by blast
  have "s @ t = (a @ a') @ p @ (c @ b' @ b @ t)"
    using s l c by (metis append.assoc)
  then have "startsWith (drop (length (a @ a')) (s @ t)) p"
    using startsWith_drop_append [of "a @ a'" p "c @ b' @ b @ t"] by simp
  moreover have "length (a @ a') < length s"
  proof -
    have "length s = length (a @ a') + length p + length (c @ b' @ b)"
      using s l c by (metis append.assoc length_append)
    with assms(3) show ?thesis by (cases p) auto
  qed
  ultimately show ?thesis by blast
qed

lemma parse_lines_observation:
  assumes "\<forall>l\<in>set before. \<not> startsWith l (js ''Final Answer:'')"
    and "startsWith l0 (js ''Final Answer:'')"
  shows "observation (parse_lines (before @ l0 # after) step) = Some (trim (drop 13 l0))"
  using assms(1)
proof (induction before arbitrary: step)
  case Nil
  then show ?case
    using assms(2) Thought_line [of l0] Action_line [of l0] Action_Input_line [of l0] by auto
next
  case (Cons l ls)
  then show ?case by simp
qed

lemma marker_facts:
  "marker \<noteq> []" "length marker = 13" "\<not> isWhiteSpace (hd marker)" "10 \<notin> set marker"
  by (simp_all add: marker_def js_def isWhiteSpace_def isLineTerminator_def)

lemma match_at_marker:
  assumes lead: "\<forall>c\<in>set lead. isWhiteSpace c"
    and ans: "answer \<noteq> []" "\<not> isWhiteSpace (hd answer)" "\<forall>c\<in>set answer. \<not> isLineTerminator c"
    and post: "post = [] \<or> hd post = 10"
  shows "match_final_answer (marker @ lead @ answer @ trail @ post)
         = Some (answer @ takeWhile (\<lambda>d. \<not> isLineTerminator d) trail)"
proof -
  let ?rest = "lead @ answer @ trail @ post"
  obtain a as where a: "answer = a # as" using ans(1) by (cases answer) auto
  have tw: "takeWhile isWhiteSpace ?rest = lead"
    using lead ans(2) a by (simp add: takeWhile_append2)
  have "group_from (length lead) ?rest
      = Some (takeWhile (\<lambda>d. \<not> isLineTerminator d) (answer @ trail @ post))"
    using a ans(3) by (simp add: group_from_def)
  also have "takeWhile (\<lambda>d. \<not> isLineTerminator d) (answer @ trail @ post)
      = answer @ takeWhile (\<lambda>d. \<not> isLineTerminator d) (trail @ post)"
    using ans(3) by (simp add: takeWhile_append2)
  finally have "match_after_marker ?rest = Some (answer @ takeWhile (\<lambda>d. \<not> isLineTerminator d) trail)"
    using takeWhile_line_end [OF post, of trail] backtrack_hit
    by (simp add: match_after_marker_def tw)
  moreover obtain m ms where m: "marker = m # ms" using marker_facts(1) by (cases marker) auto
  moreover have "startsWith (marker @ ?rest) marker" by (simp add: startsWith_def)
  ultimately show ?thesis
    by (metis append_Cons append_eq_conv_conj match_final_answer.simps(2) option.simps(5))
qed

lemma split_newline_around:
  assumes "10 \<notin> set line" and "pre = [] \<or> last pre = 10" and "post = [] \<or> hd post = 10"
  shows "\<exists>Q. split_newline (pre @ line @ post)
           = (if pre = [] then [] else split_newline (butlast pre)) @ [line] @ Q"
proof -
  obtain Q where Q: "split_newline (line @ post) = [line] @ Q"
  proof (cases post)
    case Nil
    then show ?thesis using that [of "[]"] split_newline_line [OF assms(1)] by simp
  next
    case (Cons c cs)
    with assms(3) have "post = 10 # cs" by simp
    then show ?thesis
      using that [of "split_newline cs"] split_newline_append [of line cs]
        split_newline_line [OF assms(1)] by simp
  qed
  show ?thesis
  proof (cases "pre = []")
    case True
    with Q show ?thesis by simp
  next
    case False
    with assms(2) obtain pre0 where pre0: "pre = pre0 @ [10]"
      by (metis append_butlast_last_id)
    then have "split_newline (pre @ line @ post) = split_newline pre0 @ [line] @ Q"
      using split_newline_append [of pre0 "line @ post"] Q by simp
    with pre0 show ?thesis by simp
  qed
qed

section \<open>The documented scenario\<close>

text \<open>
  The question \<open>Calculate 15 * 23\<close> with a first answer that asks for the calculator and
  a second that gives the final answer: the output is \<open>345\<close>, after two client calls and
  one tool call.
\<close>

lemma end_to_end_scenario:
  "\<exists>res. invoke (scripted_agent 3) (js ''Calculate 15 * 23'')
       [js ''Thought: need calculator\<newline>Action: calculator\<newline>Action Input: 15 * 23'',
        js ''Thought: done\<newline>Final Answer: 345''] = (Inr res, [])
     \<and> output_text res = js ''345''
     \<and> length (prompts (final res)) = 2
     \<and> dispatched (final res) = [(js ''calculator'', js ''15 * 23'')]"
proof -
  let ?r1 = "js ''Thought: need calculator\<newline>Action: calculator\<newline>Action Input: 15 * 23''"
  let ?r2 = "js ''Thought: done\<newline>Final Answer: 345''"
  have m1: "match_final_answer ?r1 = None" and i1: "\<not> includes_str ?r1 marker"
    by (simp_all add: string_eval)
  have p1: "parseAgentResponse ?r1 = \<lparr>thought = js ''need calculator'', action = Some (js ''calculator''),
      actionInput = Some (js ''15 * 23''), observation = None\<rparr>"
    by (simp add: parseAgentResponse_def response_lines_def empty_step_def string_eval)
  have x: "executeTool (scripted_agent 3) (js ''calculator'') (js ''15 * 23'') w = (Inr (js ''345''), w)" for w
    by (simp add: executeTool_def scripted_agent_def default_tools_def calculator_cases
        trim_literals allowed_literals engine_sample_def) (simp add: js_def)
  have m2: "match_final_answer ?r2 = Some (js ''345'')"
    by (simp add: string_eval)
  have t: "trim (js ''345'') = js ''345''" by (simp add: string_eval)
  have l1: "llm (scripted_agent 3) p [?r1, ?r2] = (Inr ?r1, [?r2])" for p
    by (simp add: scripted_agent_def)
  have l2: "llm (scripted_agent 3) p [?r2] = (Inr ?r2, [])" for p
    by (simp add: scripted_agent_def)
  have mx: "maxIterations (scripted_agent 3) = 3" by (simp add: scripted_agent_def)
  have w: "js ''calculator'' \<noteq> []" "js ''345'' \<noteq> []" by (simp_all add: js_def)
  have it1: "iteration (scripted_agent 3) q initial_state [?r1, ?r2] =
      (Inr (Continue (initial_state\<lparr>prompts := [createPrompt (scripted_agent 3) q []],
         scratchpad := tool_block (parseAgentResponse ?r1) (js ''calculator'') (js ''15 * 23'') (js ''345''),
         dispatched := [(js ''calculator'', js ''15 * 23'')]\<rparr>)), [?r2])" for q
    using iteration_no_final [OF l1, of q initial_state] m1 p1 x w
    by (simp add: act_or_think_def initial_state_def)
  show ?thesis
    using invoke_loop_continues [OF _ it1, of 0 "js ''Calculate 15 * 23''"]
      invoke_loop_exits [OF _ iteration_final [OF l2 m2], of 1]
    by (simp add: invoke_def mx finish_def t w initial_state_def)
qed

section \<open>Termination on a final answer\<close>

text \<open>
  Claim C1, as amended. The loop stops on a match of the pattern
  \<open>Final Answer:\s*(.+)\<close>, not on the bare marker. When the completion text of an
  iteration matches with capture \<open>g\<close>, the loop ends in that iteration: the state it
  returns has exactly one more client call than the state the iteration started from, and
  \<open>finalAnswer\<close> is the trimmed capture. When the trimmed capture is not empty it is the
  output of the turn; for the first iteration this is stated on \<open>invoke\<close> itself.
\<close>

theorem final_answer_match_stops:
  assumes "i < maxIterations agent"
    and "llm agent (createPrompt agent input (scratchpad st)) w = (Inr r, w')"
    and "match_final_answer r = Some g"
  shows "invoke_loop agent input i st w =
           (Inr (st\<lparr>prompts := prompts st @ [createPrompt agent input (scratchpad st)],
                    finalAnswer := trim g\<rparr>), w')
         \<and> (trim g \<noteq> [] \<longrightarrow>
              output_text (finish (st\<lparr>prompts := prompts st @ [createPrompt agent input (scratchpad st)],
                    finalAnswer := trim g\<rparr>)) = trim g)
         \<and> (i = 0 \<and> st = initial_state \<and> trim g \<noteq> [] \<longrightarrow>
              (\<exists>res. invoke agent input w = (Inr res, w') \<and> output_text res = trim g
                   \<and> length (prompts (final res)) = 1))"
  using invoke_loop_exits [OF assms(1) iteration_final [OF assms(2,3)]]
  by (auto simp: finish_def invoke_def initial_state_def)

text \<open>The response \<open>Final Answer: 42\<close> ends the turn after one call with output \<open>42\<close>.\<close>

theorem final_answer_match_stops_witness:
  "\<exists>res. invoke (constant_agent (js ''Final Answer: 42'') 3) (js ''What is 6 * 7?'') () = (Inr res, ())
      \<and> output_text res = js ''42'' \<and> length (prompts (final res)) = 1"
proof -
  have m: "match_final_answer (js ''Final Answer: 42'') = Some (js ''42'')"
    by (simp add: string_eval)
  have t: "trim (js ''42'') = js ''42''"
    by (simp add: string_eval)
  show ?thesis
    using final_answer_match_stops [of 0 "constant_agent (js ''Final Answer: 42'') 3"
        "js ''What is 6 * 7?''" initial_state "()" "js ''Final Answer: 42''" "()" "js ''42''"] m t
    by (simp add: constant_agent_def js_def)
qed

text \<open>
  The claim as first stated fails: the response \<open>Final Answer:\<close> contains the marker,
  the pattern does not match it, and with three iterations the client is called three times
  and the turn ends with the fallback message.
\<close>

theorem marker_without_text_counterexample:
  "includes_str (js ''Final Answer:'') marker \<and>
   (\<exists>res. invoke (constant_agent (js ''Final Answer:'') 3) (js ''What is 6 * 7?'') () = (Inr res, ())
      \<and> output_text res = exhausted_message \<and> length (prompts (final res)) = 3)"
proof -
  have m: "match_final_answer (js ''Final Answer:'') = None"
    by (simp add: string_eval)
  have p: "parseAgentResponse (js ''Final Answer:'') = empty_step\<lparr>observation := Some []\<rparr>"
    by (simp add: parseAgentResponse_def response_lines_def string_eval)
  have i: "includes_str (js ''Final Answer:'') marker"
    by (simp add: string_eval)
  have it: "iteration (constant_agent (js ''Final Answer:'') 3) q st () =
      (Inr (Continue (st\<lparr>prompts := prompts st @ [createPrompt (constant_agent (js ''Final Answer:'') 3) q (scratchpad st)],
          scratchpad := scratchpad st @ js ''\<newline>''\<rparr>)), ())" for q st
    by (simp add: iteration_def i m p act_or_think_def thought_only_def empty_step_def constant_agent_def)
  have mx: "maxIterations (constant_agent (js ''Final Answer:'') 3) = 3"
    by (simp add: constant_agent_def)
  show ?thesis
    by (simp add: i invoke_def invoke_loop_done invoke_loop_continues [OF _ it] mx finish_def
        initial_state_def)
qed

section \<open>Exhaustion\<close>



section \<open>Tool failures\<close>

text \<open>
  Claim C7. For a tool name that no registered tool has, \<open>executeTool\<close> returns the
  observation \<open>Error: Tool '<name>' not found. Available tools: <names>\<close>, which
  contains the attempted name and the comma-separated list of the registered names. When
  the registered tool of that name throws, the observation is
  \<open>Error executing tool '<name>': <error>\<close>. \<open>executeTool\<close> never throws, the branch
  of the loop that calls it always continues the loop, and a turn whose completion client
  never throws returns a result whatever the tools do.
\<close>

theorem tool_failures_become_observations:
  "(toolName \<notin> set (map name (tools agent)) \<longrightarrow>
      executeTool agent toolName input w =
        (Inr (js ''Error: Tool '' @ [39] @ toolName @ [39] @ js '' not found. Available tools: ''
              @ join (js '', '') (map name (tools agent))), w))
   \<and> (find (\<lambda>t. name t = toolName) (tools agent) = Some tool \<and> func tool input w = (Inl e, w1) \<longrightarrow>
      executeTool agent toolName input w =
        (Inr (js ''Error executing tool '' @ [39] @ toolName @ [39] @ js '': '' @ error_text e), w1))
   \<and> (\<exists>obs w2. executeTool agent toolName input w = (Inr obs, w2)
         \<and> (toolName \<notin> set (map name (tools agent)) \<longrightarrow>
               includes_str obs toolName \<and> includes_str obs (join (js '', '') (map name (tools agent)))))
   \<and> (\<exists>st' w2. act_or_think agent step st w = (Inr (Continue st'), w2))
   \<and> ((\<forall>p v. \<exists>r v'. llm agent p v = (Inr r, v')) \<longrightarrow>
         (\<exists>res w2. invoke agent question w = (Inr res, w2)))"
proof -
  have nf: "find (\<lambda>t. name t = toolName) (tools agent) = None"
    if "toolName \<notin> set (map name (tools agent))"
    using that by (auto simp: find_None_iff)
  have a: "toolName \<notin> set (map name (tools agent)) \<longrightarrow>
      executeTool agent toolName input w =
        (Inr (js ''Error: Tool '' @ [39] @ toolName @ [39] @ js '' not found. Available tools: ''
              @ join (js '', '') (map name (tools agent))), w)"
    using nf by (simp add: executeTool_def)
  have b: "find (\<lambda>t. name t = toolName) (tools agent) = Some tool \<and> func tool input w = (Inl e, w1) \<longrightarrow>
      executeTool agent toolName input w =
        (Inr (js ''Error executing tool '' @ [39] @ toolName @ [39] @ js '': '' @ error_text e), w1)"
    by (simp add: executeTool_def)
  have i1: "includes_str (js ''Error: Tool '' @ [39] @ toolName @ [39] @ js '' not found. Available tools: ''
              @ join (js '', '') (map name (tools agent))) toolName"
    using includes_str_append [of "js ''Error: Tool '' @ [39]" toolName] by simp
  have i2: "includes_str (js ''Error: Tool '' @ [39] @ toolName @ [39] @ js '' not found. Available tools: ''
              @ join (js '', '') (map name (tools agent))) (join (js '', '') (map name (tools agent)))"
    using includes_str_append [of "js ''Error: Tool '' @ [39] @ toolName @ [39] @ js '' not found. Available tools: ''"
        "join (js '', '') (map name (tools agent))" "[]"] by simp
  have c: "\<exists>obs w2. executeTool agent toolName input w = (Inr obs, w2)
         \<and> (toolName \<notin> set (map name (tools agent)) \<longrightarrow>
               includes_str obs toolName \<and> includes_str obs (join (js '', '') (map name (tools agent))))"
  proof (cases "toolName \<in> set (map name (tools agent))")
    case True
    then show ?thesis using executeTool_returns [of agent toolName input w] by auto
  next
    case False
    then show ?thesis using a i1 i2 by simp
  qed
  have d: "\<exists>st' w2. act_or_think agent step st w = (Inr (Continue st'), w2)"
    using act_or_think_continues [of agent step st w] by blast
  have e: "(\<forall>p v. \<exists>r v'. llm agent p v = (Inr r, v')) \<longrightarrow>
         (\<exists>res w2. invoke agent question w = (Inr res, w2))"
  proof
    assume up: "\<forall>p v. \<exists>r v'. llm agent p v = (Inr r, v')"
    obtain st' w' where "invoke_loop agent question 0 initial_state w = (Inr st', w')"
      using invoke_loop_returns [of agent "maxIterations agent" 0 question initial_state w] up
      by auto
    then show "\<exists>res w2. invoke agent question w = (Inr res, w2)"
      by (simp add: invoke_def)
  qed
  from a b c d e show ?thesis by blast
qed

text \<open>An unknown name and a tool that throws, on the agent whose only tool is \<open>boom\<close>.\<close>

theorem tool_failures_become_observations_witness:
  "js ''nope'' \<notin> set (map name (tools faulty_agent))
   \<and> executeTool faulty_agent (js ''nope'') (js ''x'') () =
        (Inr (js ''Error: Tool '' @ [39] @ js ''nope'' @ [39] @ js '' not found. Available tools: boom''), ())
   \<and> executeTool faulty_agent (js ''boom'') (js ''x'') () =
        (Inr (js ''Error executing tool '' @ [39] @ js ''boom'' @ [39] @ js '': Error: kaput''), ())
   \<and> (\<forall>p v. \<exists>r v'. llm faulty_agent p v = (Inr r, v'))
   \<and> (\<exists>res w2. invoke faulty_agent (js ''go'') () = (Inr res, w2))"
proof -
  have n: "js ''nope'' \<notin> set (map name (tools faulty_agent))"
    by (simp add: faulty_agent_def js_def)
  have f: "find (\<lambda>t. name t = js ''boom'') (tools faulty_agent) = Some (hd (tools faulty_agent))
      \<and> func (hd (tools faulty_agent)) (js ''x'') () = (Inl (Thrown (js ''Error: kaput'')), ())"
    by (simp add: faulty_agent_def)
  have u: "\<forall>p v. \<exists>r v'. llm faulty_agent p v = (Inr r, v')"
    by (simp add: faulty_agent_def)
  show ?thesis
    using n f u
      tool_failures_become_observations [of "js ''nope''" faulty_agent "js ''x''" "()" "hd (tools faulty_agent)"
        "Thrown (js ''Error: kaput'')" "()" empty_step initial_state "js ''go''"]
      tool_failures_become_observations [of "js ''boom''" faulty_agent "js ''x''" "()" "hd (tools faulty_agent)"
        "Thrown (js ''Error: kaput'')" "()" empty_step initial_state "js ''go''"]
    by (simp add: faulty_agent_def js_def)
qed

section \<open>The scratchpad after a tool call\<close>

text \<open>
  Claim C8. In an iteration that calls a tool (no final-answer match, a non-empty action
  and an action input), the text added to the scratchpad is the line
  \<open>I need to use the <action> tool.\<close>, whatever the thought was, followed by the lines
  \<open>Action: <action>\<close>, \<open>Action Input: <actionInput>\<close>, \<open>Observation: <observation>\<close>
  and a last \<open>Thought: \<close> without a line feed, where the observation is what
  \<open>executeTool\<close> returned.
\<close>

theorem scratchpad_block_on_dispatch:
  assumes "llm agent (createPrompt agent input (scratchpad st)) w = (Inr r, w1)"
    and "match_final_answer r = None"
    and "action (parseAgentResponse r) = Some act" and "act \<noteq> []"
    and "actionInput (parseAgentResponse r) = Some inp"
  shows "\<exists>obs w2 st'. executeTool agent act inp w1 = (Inr obs, w2)
           \<and> iteration agent input st w = (Inr (Continue st'), w2)
           \<and> scratchpad st' = scratchpad st
                @ js ''I need to use the '' @ act @ js '' tool.\<newline>''
                @ js ''Action: '' @ act @ js ''\<newline>''
                @ js ''Action Input: '' @ inp @ js ''\<newline>''
                @ js ''Observation: '' @ obs @ js ''\<newline>''
                @ js ''Thought: ''"
proof -
  obtain obs w2 where ex: "executeTool agent act inp w1 = (Inr obs, w2)"
    using executeTool_returns [of agent act inp w1] by auto
  have lit: "js ''I'' @ js '' need to use the '' @ act = js ''I need to use the '' @ act"
    by (simp add: js_def)
  show ?thesis
    using ex assms(3,4,5) lit
    by (simp add: iteration_no_final [OF assms(1)] assms(2) act_or_think_def tool_block_def)
qed

text \<open>The calculator on \<open>2 + 2\<close> in the first iteration.\<close>

theorem scratchpad_block_on_dispatch_witness:
  "\<exists>obs w2 st'. executeTool (constant_agent (js ''Thought: t\<newline>Action: calculator\<newline>Action Input: 2 + 2'') 3)
                    (js ''calculator'') (js ''2 + 2'') () = (Inr obs, w2)
      \<and> obs = js ''4''
      \<and> iteration (constant_agent (js ''Thought: t\<newline>Action: calculator\<newline>Action Input: 2 + 2'') 3)
           (js ''q'') initial_state () = (Inr (Continue st'), w2)
      \<and> scratchpad st' =
           js ''I need to use the calculator tool.\<newline>Action: calculator\<newline>Action Input: 2 + 2\<newline>Observation: 4\<newline>Thought: ''"
proof -
  let ?r = "js ''Thought: t\<newline>Action: calculator\<newline>Action Input: 2 + 2''"
  have m: "match_final_answer ?r = None"
    by (simp add: string_eval)
  have p: "parseAgentResponse ?r = \<lparr>thought = js ''t'', action = Some (js ''calculator''),
      actionInput = Some (js ''2 + 2''), observation = None\<rparr>"
    by (simp add: parseAgentResponse_def response_lines_def empty_step_def string_eval)
  have l: "llm (constant_agent ?r 3) (createPrompt (constant_agent ?r 3) (js ''q'') (scratchpad initial_state)) ()
      = (Inr ?r, ())"
    by (simp add: constant_agent_def)
  have x: "executeTool (constant_agent ?r 3) (js ''calculator'') (js ''2 + 2'') () = (Inr (js ''4''), ())"
    by (simp add: executeTool_def constant_agent_def default_tools_def simpleCalculator_def
        calculator_body_def allowedChars_def engine_sample_def string_eval)
  show ?thesis
    using scratchpad_block_on_dispatch [OF l m, of "js ''calculator''" "js ''2 + 2''"] p x
    by (simp add: initial_state_def js_def)
qed

section \<open>When a tool is called\<close>

text \<open>
  Claim C10. In an iteration without a final-answer match, the tool is called exactly when
  the parsed action is a non-empty string and the parsed action input is defined: then
  \<open>executeTool\<close> runs on that action and that input, the empty input included. When the
  action is undefined or the empty string, or the action input is undefined, no tool runs:
  the world is the one the client left and only the thought and a line feed are added to
  the scratchpad.
\<close>

theorem dispatch_condition:
  assumes "llm agent (createPrompt agent input (scratchpad st)) w = (Inr r, w1)"
    and "match_final_answer r = None"
  shows "(action (parseAgentResponse r) = Some act \<and> act \<noteq> []
            \<and> actionInput (parseAgentResponse r) = Some inp \<longrightarrow>
          (\<exists>obs w2 st'. executeTool agent act inp w1 = (Inr obs, w2)
             \<and> iteration agent input st w = (Inr (Continue st'), w2)
             \<and> dispatched st' = dispatched st @ [(act, inp)]))
       \<and> (action (parseAgentResponse r) = None \<or> action (parseAgentResponse r) = Some []
            \<or> actionInput (parseAgentResponse r) = None \<longrightarrow>
          iteration agent input st w =
            (Inr (Continue
               (st\<lparr>prompts := prompts st @ [createPrompt agent input (scratchpad st)],
                   scratchpad := scratchpad st @ thought (parseAgentResponse r) @ js ''\<newline>''\<rparr>)),
             w1))"
proof -
  have it: "iteration agent input st w =
      act_or_think agent (parseAgentResponse r)
        (st\<lparr>prompts := prompts st @ [createPrompt agent input (scratchpad st)]\<rparr>) w1"
    using iteration_no_final [OF assms(1)] assms(2) by simp
  obtain obs w2 where ex: "executeTool agent act inp w1 = (Inr obs, w2)"
    using executeTool_returns [of agent act inp w1] by auto
  have a: "action (parseAgentResponse r) = Some act \<and> act \<noteq> []
            \<and> actionInput (parseAgentResponse r) = Some inp \<longrightarrow>
          (\<exists>obs w2 st'. executeTool agent act inp w1 = (Inr obs, w2)
             \<and> iteration agent input st w = (Inr (Continue st'), w2)
             \<and> dispatched st' = dispatched st @ [(act, inp)])"
    using ex by (simp add: it act_or_think_def)
  have b: "action (parseAgentResponse r) = None \<or> action (parseAgentResponse r) = Some []
            \<or> actionInput (parseAgentResponse r) = None \<longrightarrow>
          iteration agent input st w =
            (Inr (Continue
               (st\<lparr>prompts := prompts st @ [createPrompt agent input (scratchpad st)],
                   scratchpad := scratchpad st @ thought (parseAgentResponse r) @ js ''\<newline>''\<rparr>)),
             w1)"
    by (auto simp: it act_or_think_def thought_only_def split: option.splits)
  from a b show ?thesis by blast
qed

text \<open>An empty \<open>Action Input:\<close> line still calls the weather tool, with the empty
  string; an empty \<open>Action:\<close> line parses to the empty action and no tool is called.\<close>

theorem dispatch_condition_witness:
  "(\<exists>obs w2 st'.
       executeTool (constant_agent (js ''Action: weather\<newline>Action Input:'') 3) (js ''weather'') [] ()
         = (Inr obs, w2)
       \<and> iteration (constant_agent (js ''Action: weather\<newline>Action Input:'') 3) (js ''q'') initial_state ()
           = (Inr (Continue st'), w2)
       \<and> dispatched st' = [(js ''weather'', [])])
   \<and> action (parseAgentResponse (js ''Thought: hm\<newline>Action:\<newline>Action Input: Paris'')) = Some []
   \<and> (\<exists>st'. iteration (constant_agent (js ''Thought: hm\<newline>Action:\<newline>Action Input: Paris'') 3)
               (js ''q'') initial_state () = (Inr (Continue st'), ())
          \<and> scratchpad st' = js ''hm\<newline>'' \<and> dispatched st' = [])"
proof -
  let ?r1 = "js ''Action: weather\<newline>Action Input:''"
  let ?r2 = "js ''Thought: hm\<newline>Action:\<newline>Action Input: Paris''"
  have m1: "match_final_answer ?r1 = None" and m2: "match_final_answer ?r2 = None"
    by (simp_all add: string_eval)
  have p1: "parseAgentResponse ?r1 = \<lparr>thought = [], action = Some (js ''weather''),
      actionInput = Some [], observation = None\<rparr>"
    by (simp add: parseAgentResponse_def response_lines_def empty_step_def string_eval)
  have p2: "parseAgentResponse ?r2 = \<lparr>thought = js ''hm'', action = Some [],
      actionInput = Some (js ''Paris''), observation = None\<rparr>"
    by (simp add: parseAgentResponse_def response_lines_def empty_step_def string_eval)
  have l1: "llm (constant_agent ?r1 3) (createPrompt (constant_agent ?r1 3) (js ''q'') (scratchpad initial_state)) ()
      = (Inr ?r1, ())"
    and l2: "llm (constant_agent ?r2 3) (createPrompt (constant_agent ?r2 3) (js ''q'') (scratchpad initial_state)) ()
      = (Inr ?r2, ())"
    by (simp_all add: constant_agent_def)
  have w: "js ''weather'' \<noteq> []" by (simp add: js_def)
  have j: "js ''hm'' @ js ''\<newline>'' = js ''hm\<newline>''" by (simp add: js_def)
  show ?thesis
    using dispatch_condition [OF l1 m1, of "js ''weather''" "[]"]
      dispatch_condition [OF l2 m2, of "[]" "js ''Paris''"] p1 p2 w j
    by (auto simp: initial_state_def)
qed

section \<open>Repeated prefixes in a response\<close>

text \<open>
  Claim C3, as amended. When several of the scanned lines (the trimmed non-empty lines above
  the first \<open>Final Answer:\<close> line) begin with \<open>Thought:\<close>, with \<open>Action:\<close> or with
  \<open>Action Input:\<close>, the step that \<open>parseAgentResponse\<close> returns holds the value of the last
  such line: every later line overwrites the field. Without such a line the thought is the
  empty string and the action and the action input are undefined.
\<close>

theorem last_occurrence_wins:
  "thought (parseAgentResponse response) =
     (case last_with (js ''Thought:'') (scanned_lines response) of None \<Rightarrow> [] | Some v \<Rightarrow> v)
   \<and> action (parseAgentResponse response) = last_with (js ''Action:'') (scanned_lines response)
   \<and> actionInput (parseAgentResponse response) = last_with (js ''Action Input:'') (scanned_lines response)"
  using parse_lines_last [of "response_lines response" empty_step]
  by (simp add: parseAgentResponse_def scanned_lines_def empty_step_def split: option.splits)

text \<open>
  The claim as first stated fails: with two lines for each prefix the step holds the values
  of the second lines, not of the first.
\<close>

theorem first_occurrence_counterexample:
  "parseAgentResponse (js ''Thought: first\<newline>Action: calculator\<newline>Action Input: 1 + 1\<newline>Thought: second\<newline>Action: weather\<newline>Action Input: Paris'')
   = \<lparr>thought = js ''second'', action = Some (js ''weather''), actionInput = Some (js ''Paris''),
      observation = None\<rparr>"
  by (simp add: parseAgentResponse_def response_lines_def empty_step_def string_eval)

section \<open>The calculator\<close>

text \<open>
  Claim C5, as amended. The calculator trims its input first. When the trimmed input has
  only characters of \<open>0123456789+-*/.() \<close> (as it does when the whole input has), the
  calculator returns the string the engine's evaluation of the trimmed input gives, or
  \<open>Error: Could not evaluate expression\<close> when that evaluation throws. When the trimmed
  input has another character, it returns \<open>Error: Invalid characters in expression\<close>,
  which contains \<open>Invalid characters\<close>, whatever the engine would do. So \<open>2 + 2\<close> gives
  \<open>4\<close> and \<open>15 * 23\<close> gives \<open>345\<close> when the engine evaluates them so, and \<open>alert(1)\<close>
  is rejected without evaluation.
\<close>

theorem calculator_results:
  "(set expression \<subseteq> allowedChars \<longrightarrow> set (trim expression) \<subseteq> allowedChars)
   \<and> (set (trim expression) \<subseteq> allowedChars \<and> evaluate (trim expression) = Inr result \<longrightarrow>
        simpleCalculator evaluate expression = Inr result)
   \<and> (set (trim expression) \<subseteq> allowedChars \<and> evaluate (trim expression) = Inl e \<longrightarrow>
        simpleCalculator evaluate expression = Inr (js ''Error: Could not evaluate expression''))
   \<and> (\<not> set (trim expression) \<subseteq> allowedChars \<longrightarrow>
        simpleCalculator evaluate expression = Inr (js ''Error: Invalid characters in expression'')
        \<and> simpleCalculator evaluate' expression = simpleCalculator evaluate expression)
   \<and> includes_str (js ''Error: Invalid characters in expression'') (js ''Invalid characters'')
   \<and> (evaluate (js ''2 + 2'') = Inr (js ''4'') \<longrightarrow> simpleCalculator evaluate (js ''2 + 2'') = Inr (js ''4''))
   \<and> (evaluate (js ''15 * 23'') = Inr (js ''345'') \<longrightarrow>
        simpleCalculator evaluate (js ''15 * 23'') = Inr (js ''345''))
   \<and> simpleCalculator evaluate (js ''alert(1)'') = Inr (js ''Error: Invalid characters in expression'')"
proof -
  have i: "includes_str (js ''Error: Invalid characters in expression'') (js ''Invalid characters'')"
    using includes_str_append [of "js ''Error: ''" "js ''Invalid characters''" "js '' in expression''"]
    by (simp add: js_def)
  show ?thesis
    using set_trim [of expression] i
    by (auto simp: calculator_cases trim_literals allowed_literals)
qed

text \<open>The four cases on the sample engine.\<close>

theorem calculator_results_witness:
  "set (js ''2 + 2'') \<subseteq> allowedChars \<and> engine_sample (js ''2 + 2'') = Inr (js ''4'')
   \<and> simpleCalculator engine_sample (js ''2 + 2'') = Inr (js ''4'')
   \<and> engine_sample (js ''15 * 23'') = Inr (js ''345'')
   \<and> simpleCalculator engine_sample (js ''15 * 23'') = Inr (js ''345'')
   \<and> set (trim (js ''('')) \<subseteq> allowedChars \<and> engine_sample (trim (js ''('')) = Inl (Thrown (js ''SyntaxError''))
   \<and> simpleCalculator engine_sample (js ''('') = Inr (js ''Error: Could not evaluate expression'')
   \<and> \<not> set (trim (js ''alert(1)'')) \<subseteq> allowedChars
   \<and> simpleCalculator engine_sample (js ''alert(1)'') = Inr (js ''Error: Invalid characters in expression'')"
proof -
  have e: "engine_sample (js ''2 + 2'') = Inr (js ''4'')" "engine_sample (js ''15 * 23'') = Inr (js ''345'')"
    "engine_sample (js ''('') = Inl (Thrown (js ''SyntaxError''))"
    by (simp_all add: engine_sample_def js_def)
  show ?thesis
    using e calculator_results [of "js ''2 + 2''" engine_sample "js ''4''" "Thrown (js ''SyntaxError'')" engine_sample]
      calculator_results [of "js ''(''" engine_sample "js ''4''" "Thrown (js ''SyntaxError'')" engine_sample]
      calculator_results [of "js ''alert(1)''" engine_sample "js ''4''" "Thrown (js ''SyntaxError'')" engine_sample]
    by (simp add: trim_literals allowed_literals)
qed

text \<open>
  The claim as first stated fails twice. The input \<open>(\<close> has allowed characters only and
  is no expression: the engine throws and the calculator returns the evaluation error, no
  arithmetic result. The input of a tab followed by \<open>2+2\<close> has a character outside the
  set, which \<open>trim\<close> removes before the check, and the calculator returns \<open>4\<close>.
\<close>

theorem calculator_counterexample:
  "set (js ''('') \<subseteq> allowedChars
   \<and> simpleCalculator engine_sample (js ''('') = Inr (js ''Error: Could not evaluate expression'')
   \<and> 9 \<in> set (9 # js ''2+2'') \<and> 9 \<notin> allowedChars
   \<and> simpleCalculator engine_sample (9 # js ''2+2'') = Inr (js ''4'')"
  by (simp add: calculator_cases allowedChars_def engine_sample_def string_eval)



section \<open>The weather tool\<close>

text \<open>
  Claim C9 does not hold of the code. \<open>executeTool\<close> passes the empty input as the empty
  string, which is no missing argument: the city is then the empty string and not
  \<open>New York\<close>. The default is taken only for a call without argument, and a city that is
  given is put into the fixed text.
\<close>

theorem weather_empty_input:
  "executeTool (constant_agent r n) (js ''weather'') [] () =
     (Inr (js ''The weather in  is sunny and 72'' @ [172, 8734] @ js ''F (this is mock data)''), ())
   \<and> getWeatherInfo None =
       Inr (js ''The weather in New York is sunny and 72'' @ [172, 8734] @ js ''F (this is mock data)'')
   \<and> getWeatherInfo (Some city) =
       Inr (js ''The weather in '' @ city @ js '' is sunny and 72'' @ [172, 8734] @ js ''F (this is mock data)'')"
  by (simp add: executeTool_def constant_agent_def default_tools_def getWeatherInfo_def js_def)

section \<open>The loop's pattern against the parser's line scan\<close>

text \<open>
  Claim C2, as amended. Let the first occurrence of \<open>Final Answer:\<close> in the response begin
  a line, after white space at most, and let the rest of that line be white space, then an
  answer that is not empty, begins and ends with a character that is no white space and has
  no line terminator, then white space. Then the pattern of the loop and the line scan of
  the parser both find a final answer, and both yield that answer.
\<close>

theorem extractions_agree_at_line_start:
  assumes resp: "response = pre @ ind @ marker @ lead @ answer @ trail @ post"
    and pre: "pre = [] \<or> last pre = 10"
    and ind: "\<forall>c\<in>set ind. isWhiteSpace c \<and> c \<noteq> 10"
    and first: "indexOf response marker = Some (length pre + length ind)"
    and lead: "\<forall>c\<in>set lead. isWhiteSpace c \<and> c \<noteq> 10"
    and ans: "answer \<noteq> []" "\<not> isWhiteSpace (hd answer)" "\<not> isWhiteSpace (last answer)"
      "\<forall>c\<in>set answer. \<not> isLineTerminator c"
    and trail: "\<forall>c\<in>set trail. isWhiteSpace c \<and> c \<noteq> 10"
    and post: "post = [] \<or> hd post = 10"
  shows "loop_final_answer response = Some answer \<and> parser_final_answer response = Some answer"
proof -
  let ?nlt = "\<lambda>d. \<not> isLineTerminator d"
  have trim_answer: "trim answer = answer"
    using trim_core [OF ans(1,2,3)] .
  \<comment> \<open>the pattern of the loop\<close>
  have "drop (length pre + length ind) response = marker @ lead @ answer @ trail @ post"
    by (simp add: resp)
  then have m: "match_final_answer response = Some (answer @ takeWhile ?nlt trail)"
    using indexOf_match [OF first] match_at_marker [OF _ ans(1,2,4) post, of lead trail] lead
    by simp
  have "\<forall>c\<in>set (takeWhile ?nlt trail). isWhiteSpace c"
    using trail by (auto dest: set_takeWhileD)
  then have "trim (answer @ takeWhile ?nlt trail) = answer"
    using trim_pad [of "[]" "takeWhile ?nlt trail" answer] trim_answer by simp
  with m have loop: "loop_final_answer response = Some answer"
    by (simp add: loop_final_answer_def match_final_answer_includes)
  \<comment> \<open>the scan of the parser\<close>
  let ?line = "ind @ (marker @ lead @ answer) @ trail"
  let ?P = "if pre = [] then [] else split_newline (butlast pre)"
  have nl: "10 \<notin> set ?line"
    using ind lead trail ans(4) marker_facts(4) by (auto simp: isLineTerminator_def)
  obtain Q where split: "split_newline response = ?P @ [?line] @ Q"
    using split_newline_around [OF nl pre post] by (auto simp: resp)
  have core: "trim ?line = marker @ lead @ answer"
  proof -
    have "trim ?line = trim (marker @ lead @ answer)"
      using trim_pad [of ind trail "marker @ lead @ answer"] ind trail by simp
    moreover have "trim (marker @ lead @ answer) = marker @ lead @ answer"
      using trim_core [of "marker @ lead @ answer"] marker_facts(1,3) ans(1,3) by simp
    ultimately show ?thesis by simp
  qed
  have before: "\<forall>l\<in>set (filter (\<lambda>line. line \<noteq> []) (map trim ?P)). \<not> startsWith l marker"
  proof (cases "pre = []")
    case True
    then show ?thesis by simp
  next
    case False
    with pre obtain pre0 where pre0: "pre = pre0 @ [10]"
      by (metis append_butlast_last_id)
    have no: "\<not> startsWith (trim l) marker" if l: "l \<in> set (split_newline pre0)" for l
    proof
      assume "startsWith (trim l) marker"
      then obtain i where i: "i < length pre0"
        "startsWith (drop i (pre0 @ ([10] @ ind @ marker @ lead @ answer @ trail @ post))) marker"
        using marker_line_position [OF l _ marker_facts(1)] by blast
      have eq: "pre0 @ ([10] @ ind @ marker @ lead @ answer @ trail @ post) = response"
        by (simp add: resp pre0)
      have "startsWith (drop i response) marker"
        using i(2) by (simp only: eq)
      moreover have "i < length pre + length ind" using i(1) pre0 by simp
      ultimately show False using indexOf_first [OF first] by blast
    qed
    from pre0 have "butlast pre = pre0" by simp
    with False no show ?thesis by auto
  qed
  have lines: "response_lines response
      = filter (\<lambda>line. line \<noteq> []) (map trim ?P) @ (marker @ lead @ answer)
          # filter (\<lambda>line. line \<noteq> []) (map trim Q)"
    using core marker_facts(1) by (simp add: response_lines_def split split del: if_split)
  have "parser_final_answer response = Some (trim (drop 13 (marker @ lead @ answer)))"
    unfolding parser_final_answer_def parseAgentResponse_def lines
    using parse_lines_observation [of "filter (\<lambda>line. line \<noteq> []) (map trim ?P)"
        "marker @ lead @ answer"] before
    by (simp add: marker_def [symmetric] startsWith_def)
  moreover have "trim (drop 13 (marker @ lead @ answer)) = answer"
    using trim_pad [of lead "[]" answer] lead trim_answer by (simp add: marker_facts(2))
  ultimately show ?thesis using loop by simp
qed

text \<open>A response with a thought line, an indented final-answer line that ends with a
  space and a carriage return, and a further line.\<close>

theorem extractions_agree_at_line_start_witness:
  "js ''Thought: done\<newline>  Final Answer: 345 '' @ [13] @ js ''\<newline>bye''
     = js ''Thought: done\<newline>'' @ js ''  '' @ marker @ js '' '' @ js ''345'' @ [32, 13] @ js ''\<newline>bye''
   \<and> indexOf (js ''Thought: done\<newline>  Final Answer: 345 '' @ [13] @ js ''\<newline>bye'') marker
       = Some (length (js ''Thought: done\<newline>'') + length (js ''  ''))
   \<and> loop_final_answer (js ''Thought: done\<newline>  Final Answer: 345 '' @ [13] @ js ''\<newline>bye'')
       = Some (js ''345'')
   \<and> parser_final_answer (js ''Thought: done\<newline>  Final Answer: 345 '' @ [13] @ js ''\<newline>bye'')
       = Some (js ''345'')"
proof -
  let ?r = "js ''Thought: done\<newline>  Final Answer: 345 '' @ [13] @ js ''\<newline>bye''"
  have r: "?r = js ''Thought: done\<newline>'' @ js ''  '' @ marker @ js '' '' @ js ''345'' @ [32, 13]
      @ js ''\<newline>bye''"
    by (simp add: js_def marker_def)
  have f: "indexOf ?r marker = Some (length (js ''Thought: done\<newline>'') + length (js ''  ''))"
    by (simp add: js_def marker_def startsWith_def)
  have h: "js ''Thought: done\<newline>'' = [] \<or> last (js ''Thought: done\<newline>'') = 10"
    "\<forall>c\<in>set (js ''  ''). isWhiteSpace c \<and> c \<noteq> 10"
    "\<forall>c\<in>set (js '' ''). isWhiteSpace c \<and> c \<noteq> 10"
    "js ''345'' \<noteq> []" "\<not> isWhiteSpace (hd (js ''345''))" "\<not> isWhiteSpace (last (js ''345''))"
    "\<forall>c\<in>set (js ''345''). \<not> isLineTerminator c"
    "\<forall>c\<in>set [32, 13]. isWhiteSpace c \<and> c \<noteq> 10"
    "js ''\<newline>bye'' = [] \<or> hd (js ''\<newline>bye'') = 10"
    by (simp_all add: js_def isWhiteSpace_def isLineTerminator_def)
  show ?thesis
    using r f extractions_agree_at_line_start [OF r h(1,2) f h(3-9)] by simp
qed

text \<open>
  The claim as first stated fails in both directions. In
  \<open>Thought: done. Final Answer: 42\<close> the marker stands inside a line: the pattern yields
  \<open>42\<close> and the parser no final answer. In \<open>Final Answer:\<close> nothing follows the
  marker: the parser yields the empty answer and the pattern does not match.
\<close>

theorem extraction_counterexample:
  "loop_final_answer (js ''Thought: done. Final Answer: 42'') = Some (js ''42'')
   \<and> parser_final_answer (js ''Thought: done. Final Answer: 42'') = None
   \<and> loop_final_answer (js ''Final Answer:'') = None
   \<and> parser_final_answer (js ''Final Answer:'') = Some []"
  by (simp add: loop_final_answer_def parser_final_answer_def parseAgentResponse_def
      response_lines_def empty_step_def string_eval)

end
